theory Spec2Isabelle
  imports Main "HOL-Library.Log_Nat"
begin

section \<open>JavaScript numbers\<close>

text \<open>
  Every quantity of \<^verbatim>\<open>main.js\<close> (positions, velocities, sizes) is a JavaScript
  Number: an IEEE-754 binary64 value. The result of \<^verbatim>\<open>+\<close>, \<^verbatim>\<open>-\<close>, \<^verbatim>\<open>*\<close>
  and \<^verbatim>\<open>/\<close> is the exact result rounded to the nearest value with a significand of
  53 bits, ties going to the even significand; a decimal literal denotes the nearest such
  value as well. A number is modelled by the rational it denotes.

  \<open>binade x\<close> is the exponent \<open>e\<close> with \<open>2\<^sup>e \<le> x < 2\<^sup>e\<^sup>+\<^sup>1\<close> of a positive
  \<open>x\<close>, \<open>nearest_even m\<close> the integer next to \<open>m\<close> (the even one of two equally
  near), and \<open>round64 x\<close> the rounding of \<open>x\<close> to 53 significant bits.

  Left out of the model: the bounds of the binary64 exponent (no overflow to an infinity,
  no gradual underflow), the two infinities, NaN and the sign of zero. The game starts
  from the constants of \<^verbatim>\<open>paddles\<close> and \<^verbatim>\<open>ball\<close> and only adds, subtracts, halves
  and negates quantities of magnitude below 2: no infinity and no NaN arises, sums and
  differences of binary64 values are exact where they are tiny, and a negative zero
  compares as zero does in every test of the source.
\<close>

definition binade :: "rat \<Rightarrow> int" where
  "binade x = (if 1 \<le> x then bitlen \<lfloor>x\<rfloor> - 1 else - bitlen (\<lceil>1 / x\<rceil> - 1))"

definition nearest_even :: "rat \<Rightarrow> int" where
  "nearest_even m = (let f = \<lfloor>m\<rfloor>; d = m - of_int f in
     if d < 1 / 2 then f else if 1 / 2 < d then f + 1 else if even f then f else f + 1)"

definition round64 :: "rat \<Rightarrow> rat" where
  "round64 x = (if x = 0 then 0 else
     let e = binade \<bar>x\<bar> - 52
     in sgn x * (of_int (nearest_even (\<bar>x\<bar> / 2 powi e)) * 2 powi e))"

lemma round64_zero: "round64 0 = 0"
  by (simp add: round64_def)

lemma round64_neg: "round64 (- x) = - round64 x"
  by (simp add: round64_def Let_def)

typedef number = "range round64"
  by blast

setup_lifting type_definition_number

text \<open>The value of a number, as a rational.\<close>

abbreviation val :: "number \<Rightarrow> rat" where
  "val \<equiv> Rep_number"

text \<open>A decimal literal of the source: \<^verbatim>\<open>0.02\<close> is \<open>lit 0.02\<close>.\<close>

lift_definition lit :: "rat \<Rightarrow> number" is round64
  by simp

instantiation number :: linorder
begin

lift_definition less_eq_number :: "number \<Rightarrow> number \<Rightarrow> bool" is "(\<le>)" .

lift_definition less_number :: "number \<Rightarrow> number \<Rightarrow> bool" is "(<)" .

instance
  by standard (transfer; force)+

end

text \<open>
  The arithmetic operators of the source. The type is given the syntax of \<open>+\<close>,
  \<open>-\<close>, \<open>*\<close>, \<open>/\<close> and unary minus only (the class of \<open>/\<close> asks for a
  reciprocal too, which the source never takes): it is no instance of any algebraic
  class, so no law of a field (associativity, say) is available for it.
\<close>

instantiation number :: "{plus, minus, times, inverse, uminus}"
begin

lift_definition plus_number :: "number \<Rightarrow> number \<Rightarrow> number"
  is "\<lambda>a b. round64 (a + b)"
  by simp

lift_definition minus_number :: "number \<Rightarrow> number \<Rightarrow> number"
  is "\<lambda>a b. round64 (a - b)"
  by simp

lift_definition times_number :: "number \<Rightarrow> number \<Rightarrow> number"
  is "\<lambda>a b. round64 (a * b)"
  by simp

lift_definition divide_number :: "number \<Rightarrow> number \<Rightarrow> number"
  is "\<lambda>a b. round64 (a / b)"
  by simp

lift_definition inverse_number :: "number \<Rightarrow> number"
  is "\<lambda>a. round64 (1 / a)"
  by simp

lift_definition uminus_number :: "number \<Rightarrow> number"
  is "\<lambda>a. - a"
proof -
  fix a :: rat
  assume "a \<in> range round64"
  then obtain x where "a = round64 x" ..
  then have "- a = round64 (- x)" by (simp add: round64_neg)
  then show "- a \<in> range round64" by (rule range_eqI)
qed

instance ..

end

section \<open>Rounding a binary fraction\<close>

text \<open>
  The numbers of a run are fractions \<open>a / 2\<^sup>k\<close>. For these the rounding is a
  computation on the integer \<open>a\<close>: drop the bits beyond the 53rd and round the last
  kept bit by the dropped ones. The functions below do so; \<open>round64_dyadic\<close> proves
  that they compute \<open>round64\<close>.
\<close>

definition tie_even :: "int \<Rightarrow> int \<Rightarrow> int \<Rightarrow> int" where
  "tie_even q r h = (if r < h then q else if h < r then q + 1 else if even q then q else q + 1)"

definition rne_int :: "int \<Rightarrow> nat \<Rightarrow> int" where
  "rne_int a k = tie_even (a div 2 ^ k) (a mod 2 ^ k) (2 ^ (k - 1))"

definition shift_round :: "int \<Rightarrow> int \<Rightarrow> int" where
  "shift_round a s = (if s \<le> 0 then a else rne_int a (nat s) * 2 ^ nat s)"

definition round53 :: "int \<Rightarrow> int" where
  "round53 a = shift_round a (bitlen a - 53)"

text \<open>A numeral is a power of two when its binary digits are a one and zeros.\<close>

fun pow2_num :: "num \<Rightarrow> bool" where
  "pow2_num Num.One = True"
| "pow2_num (Num.Bit0 k) = pow2_num k"
| "pow2_num (Num.Bit1 k) = False"

section \<open>Properties of the rounding\<close>

lemma binade_lower: assumes "0 < x" shows "2 powi binade x \<le> x"
proof (cases "1 \<le> x")
  case True
  define n where "n = \<lfloor>x\<rfloor>"
  have n: "0 < n" using True by (simp add: n_def)
  have b: "1 \<le> bitlen n" using n by (simp add: bitlen_alt_def)
  from bitlen_bounds[OF n] have "2 ^ nat (bitlen n - 1) \<le> n" by simp
  then have "(of_int (2 ^ nat (bitlen n - 1)) :: rat) \<le> of_int n"
    by (simp only: of_int_le_iff)
  also have "\<dots> \<le> x" by (simp add: n_def)
  finally have "(2::rat) ^ nat (bitlen n - 1) \<le> x" by simp
  moreover have "binade x = bitlen n - 1" using True by (simp add: binade_def n_def)
  ultimately show ?thesis using b by (simp add: power_int_def)
next
  case False
  define n where "n = \<lceil>1 / x\<rceil> - 1"
  have "1 < 1 / x" using False assms by simp
  then have n: "0 < n" unfolding n_def by (simp add: less_ceiling_iff)
  have b: "1 \<le> bitlen n" using n by (simp add: bitlen_alt_def)
  from bitlen_bounds[OF n] have "n + 1 \<le> 2 ^ nat (bitlen n)" by simp
  then have "(of_int (n + 1) :: rat) \<le> of_int (2 ^ nat (bitlen n))"
    by (simp only: of_int_le_iff)
  moreover have "1 / x \<le> of_int (n + 1)" by (simp add: n_def)
  ultimately have "1 / x \<le> 2 ^ nat (bitlen n)" by simp
  then have "1 / 2 ^ nat (bitlen n) \<le> x" using assms
    by (simp add: field_simps)
  moreover have "binade x = - bitlen n" using False by (simp add: binade_def n_def)
  ultimately show ?thesis using b by (simp add: power_int_def field_simps)
qed

lemma binade_upper: assumes "0 < x" shows "x < 2 powi (binade x + 1)"
proof (cases "1 \<le> x")
  case True
  define n where "n = \<lfloor>x\<rfloor>"
  have n: "0 < n" using True by (simp add: n_def)
  have b: "1 \<le> bitlen n" using n by (simp add: bitlen_alt_def)
  from bitlen_bounds[OF n] have "n + 1 \<le> 2 ^ nat (bitlen n)" by simp
  then have "(of_int (n + 1) :: rat) \<le> of_int (2 ^ nat (bitlen n))"
    by (simp only: of_int_le_iff)
  moreover have "x < of_int (n + 1)" unfolding n_def using floor_correct[of x] by simp
  ultimately have "x < 2 ^ nat (bitlen n)" by simp
  moreover have "binade x = bitlen n - 1" using True by (simp add: binade_def n_def)
  ultimately show ?thesis using b by (simp add: power_int_def)
next
  case False
  define n where "n = \<lceil>1 / x\<rceil> - 1"
  have "1 < 1 / x" using False assms by simp
  then have n: "0 < n" unfolding n_def by (simp add: less_ceiling_iff)
  have b: "1 \<le> bitlen n" using n by (simp add: bitlen_alt_def)
  from bitlen_bounds[OF n] have "2 ^ nat (bitlen n - 1) \<le> n" by simp
  then have "(2::rat) ^ nat (bitlen n - 1) \<le> of_int n"
    by simp
  moreover have "of_int n < 1 / x" unfolding n_def
    using less_ceiling_iff[of "\<lceil>1 / x\<rceil> - 1" "1 / x"] by simp
  ultimately have "2 ^ nat (bitlen n - 1) < 1 / x" by linarith
  then have "x < 1 / 2 ^ nat (bitlen n - 1)" using assms
    by (simp add: field_simps)
  moreover have "binade x = - bitlen n" using False by (simp add: binade_def n_def)
  moreover have "nat (bitlen n - 1) = nat (bitlen n) - 1" by simp
  ultimately show ?thesis using b
    by (cases "bitlen n = 1") (auto simp add: power_int_def field_simps nat_diff_distrib)
qed

lemma binade_unique:
  assumes "0 < x" "2 powi e \<le> x" "x < 2 powi (e + 1)"
  shows "binade x = e"
proof -
  have "2 powi e < (2::rat) powi (binade x + 1)"
    using assms(2) binade_upper[OF assms(1)] by simp
  then have "e < binade x + 1"
    using power_int_increasing[of "binade x + 1" e "2::rat"] by (cases "e < binade x + 1") auto
  moreover have "2 powi binade x < (2::rat) powi (e + 1)"
    using assms(3) binade_lower[OF assms(1)] by simp
  then have "binade x < e + 1"
    using power_int_increasing[of "e + 1" "binade x" "2::rat"] by (cases "binade x < e + 1") auto
  ultimately show ?thesis by simp
qed


lemma nearest_even_of_int: "nearest_even (of_int k) = k"
  by (simp add: nearest_even_def)

lemma nearest_even_shift:
  assumes "0 < k"
  shows "nearest_even (of_int a / 2 ^ k) = rne_int a k"
proof -
  have fl: "\<lfloor>(of_int a :: rat) / 2 ^ k\<rfloor> = a div 2 ^ k"
    using floor_divide_of_int_eq[of a "2 ^ k", where ?'a = rat] by simp
  have "(of_int a :: rat) = of_int ((a div 2 ^ k) * 2 ^ k + a mod 2 ^ k)"
    by (simp only: div_mult_mod_eq)
  then have "(of_int a :: rat) = of_int (a div 2 ^ k) * 2 ^ k + of_int (a mod 2 ^ k)"
    by (simp only: of_int_add of_int_mult of_int_power of_int_numeral)
  then have d: "(of_int a :: rat) / 2 ^ k - of_int (a div 2 ^ k) = of_int (a mod 2 ^ k) / 2 ^ k"
    by (simp add: field_simps)
  have pk: "(2::rat) ^ k = 2 * 2 ^ (k - 1)" using assms by (cases k) auto
  have lt: "(of_int (a mod 2 ^ k) :: rat) / 2 ^ k < 1 / 2 \<longleftrightarrow> a mod 2 ^ k < 2 ^ (k - 1)"
  proof -
    have "(of_int (a mod 2 ^ k) :: rat) / 2 ^ k < 1 / 2 \<longleftrightarrow> (of_int (a mod 2 ^ k) :: rat) < 2 ^ (k - 1)"
      by (simp add: pk field_simps)
    then show ?thesis by simp
  qed
  have gt: "1 / 2 < (of_int (a mod 2 ^ k) :: rat) / 2 ^ k \<longleftrightarrow> 2 ^ (k - 1) < a mod 2 ^ k"
  proof -
    have "1 / 2 < (of_int (a mod 2 ^ k) :: rat) / 2 ^ k \<longleftrightarrow> 2 ^ (k - 1) < (of_int (a mod 2 ^ k) :: rat)"
      by (simp add: pk field_simps)
    then show ?thesis by simp
  qed
  show ?thesis
    unfolding nearest_even_def rne_int_def tie_even_def Let_def fl d lt gt by simp
qed


lemma pow_nat_powi: "0 \<le> k \<Longrightarrow> (2::rat) ^ nat k = 2 powi k"
  by (simp add: power_int_def)

lemma powi_mult: "(2::rat) powi a * 2 powi b = 2 powi (a + b)"
  by (simp add: power_int_add)

lemma binade_dyadic:
  assumes "0 < a"
  shows "binade (of_int a * 2 powi e0) = bitlen a - 1 + e0"
proof (rule binade_unique)
  have b: "1 \<le> bitlen a" using assms by (simp add: bitlen_alt_def)
  show "0 < (of_int a :: rat) * 2 powi e0" using assms by simp
  have "(2::rat) ^ nat (bitlen a - 1) \<le> of_int a"
    using bitlen_bounds[OF assms] by simp
  then have "(2::rat) powi (bitlen a - 1) \<le> of_int a"
    using b by (simp add: power_int_def)
  then have "(2::rat) powi (bitlen a - 1) * 2 powi e0 \<le> of_int a * 2 powi e0"
    by (simp add: mult_right_mono)
  then show "2 powi (bitlen a - 1 + e0) \<le> (of_int a :: rat) * 2 powi e0"
    by (simp add: power_int_add)
  have "of_int a < (2::rat) ^ nat (bitlen a)"
    using bitlen_bounds[OF assms] by simp
  then have "of_int a < (2::rat) powi (bitlen a)"
    using b by (simp add: power_int_def)
  then have "of_int a * 2 powi e0 < (2::rat) powi (bitlen a) * 2 powi e0"
    by (simp add: mult_strict_right_mono)
  then show "(of_int a :: rat) * 2 powi e0 < 2 powi (bitlen a - 1 + e0 + 1)"
    by (simp add: power_int_add)
qed

lemma round64_dyadic:
  assumes "0 < a"
  shows "round64 (of_int a * 2 powi e0) = of_int (round53 a) * 2 powi e0"
proof -
  let ?x = "(of_int a :: rat) * 2 powi e0"
  define sh where "sh = bitlen a - 53"
  have pos: "0 < ?x" using assms by simp
  have e: "binade \<bar>?x\<bar> - 52 = sh + e0"
    using pos binade_dyadic[OF assms, of e0] by (simp add: sh_def abs_of_pos)
  have m: "\<bar>?x\<bar> / 2 powi (sh + e0) = of_int a * 2 powi (- sh)"
    using pos by (simp add: abs_of_pos power_int_add power_int_minus field_simps)
  have r: "round64 ?x = of_int (nearest_even (of_int a * 2 powi (- sh))) * 2 powi (sh + e0)"
    using pos assms unfolding round64_def Let_def e m by simp
  show ?thesis
  proof (cases "sh \<le> 0")
    case True
    then have "(of_int a :: rat) * 2 powi (- sh) = of_int (a * 2 ^ nat (- sh))"
      by (simp add: power_int_def)
    then have "nearest_even (of_int a * 2 powi (- sh)) = a * 2 ^ nat (- sh)"
      by (simp only: nearest_even_of_int)
    moreover have "(2::rat) ^ nat (- sh) * 2 powi (sh + e0) = 2 powi e0"
      using True by (simp add: pow_nat_powi powi_mult)
    moreover have "round53 a = a" using True by (simp add: round53_def shift_round_def sh_def)
    ultimately show ?thesis unfolding r by (simp add: mult.assoc)
  next
    case False
    then have k: "0 < nat sh" by simp
    have "(of_int a :: rat) * 2 powi (- sh) = of_int a / 2 ^ nat sh"
      using False by (simp add: power_int_def field_simps)
    then have "nearest_even (of_int a * 2 powi (- sh)) = rne_int a (nat sh)"
      using nearest_even_shift[OF k, of a] by simp
    moreover have "(2::rat) powi (sh + e0) = 2 ^ nat sh * 2 powi e0"
      using False by (simp add: pow_nat_powi powi_mult)
    moreover have "round53 a = rne_int a (nat sh) * 2 ^ nat sh"
      using False by (simp add: round53_def shift_round_def sh_def)
    ultimately show ?thesis unfolding r by (simp add: mult.assoc)
  qed
qed


lemma round53_small:
  assumes "0 < n" "n \<le> 2 ^ 53"
  shows "round53 n = n"
proof (cases "n = 2 ^ 53")
  case True
  have "bitlen ((2::int) ^ 53) = 54"
    using bitlen_pow2[of 1 53] by (simp add: compute_bitlen)
  then show ?thesis unfolding True
    by (simp add: round53_def shift_round_def rne_int_def tie_even_def)
next
  case False
  then have lt: "n < 2 ^ 53" using assms by simp
  have "bitlen n \<le> 53"
  proof (rule ccontr)
    assume "\<not> bitlen n \<le> 53"
    then have "53 \<le> nat (bitlen n - 1)" by simp
    then have "(2::int) ^ 53 \<le> 2 ^ nat (bitlen n - 1)"
      by (rule power_increasing) simp
    with bitlen_bounds[OF assms(1)] lt show False by simp
  qed
  then show ?thesis by (simp add: round53_def shift_round_def)
qed

lemma nearest_even_bounds:
  assumes "of_int lo \<le> m" "m < of_int hi"
  shows "lo \<le> nearest_even m \<and> nearest_even m \<le> hi"
proof -
  have "lo \<le> \<lfloor>m\<rfloor>" using assms(1) by (simp add: le_floor_iff)
  moreover have "\<lfloor>m\<rfloor> < hi" using assms(2) by (simp add: floor_less_iff)
  ultimately show ?thesis by (auto simp add: nearest_even_def Let_def)
qed

lemma round64_mantissa:
  assumes "x \<noteq> 0"
  shows "\<exists>n. 0 < n \<and> n \<le> 2 ^ 53 \<and> round64 x = sgn x * (of_int n * 2 powi (binade \<bar>x\<bar> - 52))"
proof -
  let ?L = "binade \<bar>x\<bar>"
  let ?m = "\<bar>x\<bar> / 2 powi (?L - 52)"
  have pos: "0 < \<bar>x\<bar>" using assms by simp
  have p52: "(2::rat) powi 52 = 2 ^ 52" and p53: "(2::rat) powi 53 = 2 ^ 53"
    by (simp_all add: power_int_def)
  have "(2::rat) powi ?L = 2 powi 52 * 2 powi (?L - 52)"
    unfolding powi_mult by (rule arg_cong[where f = "\<lambda>k. 2 powi k"]) simp
  then have e1: "(2::rat) powi ?L = 2 ^ 52 * 2 powi (?L - 52)"
    by (simp only: p52)
  have "(2::rat) powi (?L + 1) = 2 powi 53 * 2 powi (?L - 52)"
    unfolding powi_mult by (rule arg_cong[where f = "\<lambda>k. 2 powi k"]) simp
  then have e2: "(2::rat) powi (?L + 1) = 2 ^ 53 * 2 powi (?L - 52)"
    by (simp only: p53)
  have "2 ^ 52 * 2 powi (?L - 52) \<le> \<bar>x\<bar>"
    using binade_lower[OF pos] by (simp only: e1)
  then have lo: "of_int (2 ^ 52) \<le> ?m"
    by (simp add: pos_le_divide_eq)
  have "\<bar>x\<bar> < 2 ^ 53 * 2 powi (?L - 52)"
    using binade_upper[OF pos] by (simp only: e2)
  then have hi: "?m < of_int (2 ^ 53)"
    by (simp add: pos_divide_less_eq)
  from nearest_even_bounds[OF lo hi] have "0 < nearest_even ?m" "nearest_even ?m \<le> 2 ^ 53" by simp_all
  moreover have "round64 x = sgn x * (of_int (nearest_even ?m) * 2 powi (?L - 52))"
    using assms by (simp add: round64_def Let_def)
  ultimately show ?thesis by blast
qed

lemma round64_idem: "round64 (round64 x) = round64 x"
proof (cases "x = 0")
  case True
  then show ?thesis by (simp add: round64_zero)
next
  case False
  from round64_mantissa[OF False] obtain n where n: "0 < n" "n \<le> 2 ^ 53"
    and r: "round64 x = sgn x * (of_int n * 2 powi (binade \<bar>x\<bar> - 52))" by blast
  have d: "round64 (of_int n * 2 powi (binade \<bar>x\<bar> - 52)) = of_int n * 2 powi (binade \<bar>x\<bar> - 52)"
    using round64_dyadic[OF n(1)] round53_small[OF n] by simp
  show ?thesis
  proof (cases "0 < x")
    case True
    then show ?thesis using d by (simp add: r)
  next
    case neg: False
    then have "sgn x = - 1" using False by simp
    then show ?thesis using d round64_neg[of "of_int n * 2 powi (binade \<bar>x\<bar> - 52)"] by (simp add: r)
  qed
qed



lemma nearest_even_mono:
  assumes "m1 \<le> m2"
  shows "nearest_even m1 \<le> nearest_even m2"
proof (cases "\<lfloor>m1\<rfloor> = \<lfloor>m2\<rfloor>")
  case True
  then show ?thesis using assms by (auto simp add: nearest_even_def Let_def)
next
  case False
  then have "\<lfloor>m1\<rfloor> + 1 \<le> \<lfloor>m2\<rfloor>" using floor_mono[OF assms] by simp
  moreover have "nearest_even m1 \<le> \<lfloor>m1\<rfloor> + 1" by (simp add: nearest_even_def Let_def)
  moreover have "\<lfloor>m2\<rfloor> \<le> nearest_even m2" by (simp add: nearest_even_def Let_def)
  ultimately show ?thesis by linarith
qed

lemma round64_bounds:
  assumes "0 < t"
  shows "2 powi binade t \<le> round64 t" and "round64 t \<le> 2 powi (binade t + 1)"
proof -
  let ?L = "binade t"
  let ?m = "t / 2 powi (?L - 52)"
  have p52: "(2::rat) powi 52 = 2 ^ 52" and p53: "(2::rat) powi 53 = 2 ^ 53"
    by (simp_all add: power_int_def)
  have e1: "(2::rat) powi ?L = 2 powi 52 * 2 powi (?L - 52)"
    unfolding powi_mult by (rule arg_cong[where f = "\<lambda>k. 2 powi k"]) simp
  have e2: "(2::rat) powi (?L + 1) = 2 powi 53 * 2 powi (?L - 52)"
    unfolding powi_mult by (rule arg_cong[where f = "\<lambda>k. 2 powi k"]) simp
  have "2 powi 52 * 2 powi (?L - 52) \<le> t"
    using binade_lower[OF assms] by (simp only: e1)
  then have lo: "of_int (2 ^ 52) \<le> ?m"
    by (simp add: pos_le_divide_eq p52)
  have "t < 2 powi 53 * 2 powi (?L - 52)"
    using binade_upper[OF assms] by (simp only: e2)
  then have hi: "?m < of_int (2 ^ 53)"
    by (simp add: pos_divide_less_eq p53)
  have r: "round64 t = of_int (nearest_even ?m) * 2 powi (?L - 52)"
    using assms by (simp add: round64_def Let_def)
  define n where "n = nearest_even ?m"
  have p: "0 \<le> (2::rat) powi (?L - 52)" by simp
  from nearest_even_bounds[OF lo hi] have n: "2 ^ 52 \<le> n" "n \<le> 2 ^ 53"
    by (simp_all add: n_def)
  have "(2::rat) ^ 52 \<le> of_int n" using n(1) by simp
  then have "(2::rat) ^ 52 * 2 powi (?L - 52) \<le> of_int n * 2 powi (?L - 52)"
    using p by (rule mult_right_mono)
  then show "2 powi binade t \<le> round64 t"
    unfolding r e1 p52 n_def .
  have "of_int n \<le> (2::rat) ^ 53" using n(2) by simp
  then have "of_int n * 2 powi (?L - 52) \<le> (2::rat) ^ 53 * 2 powi (?L - 52)"
    using p by (rule mult_right_mono)
  then show "round64 t \<le> 2 powi (binade t + 1)"
    unfolding r e2 p53 n_def .
qed

lemma round64_pos:
  assumes "0 < t"
  shows "0 < round64 t"
proof -
  have "0 < (2::rat) powi binade t" by simp
  then show ?thesis using round64_bounds(1)[OF assms] by linarith
qed

lemma round64_mono_pos:
  assumes "0 < s" "s \<le> t"
  shows "round64 s \<le> round64 t"
proof -
  have t: "0 < t" using assms by simp
  have "2 powi binade s < (2::rat) powi (binade t + 1)"
    using binade_lower[OF assms(1)] binade_upper[OF t] assms(2) by simp
  then have le: "binade s \<le> binade t"
    using power_int_increasing[of "binade t + 1" "binade s" "2::rat"]
    by (cases "binade s \<le> binade t") auto
  show ?thesis
  proof (cases "binade s = binade t")
    case True
    have "s / 2 powi (binade t - 52) \<le> t / 2 powi (binade t - 52)"
      using assms(2) by (simp add: divide_right_mono)
    then have "nearest_even (s / 2 powi (binade t - 52)) \<le> nearest_even (t / 2 powi (binade t - 52))"
      by (rule nearest_even_mono)
    then have "(of_int (nearest_even (s / 2 powi (binade t - 52))) :: rat) * 2 powi (binade t - 52)
        \<le> of_int (nearest_even (t / 2 powi (binade t - 52))) * 2 powi (binade t - 52)"
      by (simp add: mult_right_mono)
    then show ?thesis using assms t True by (simp add: round64_def Let_def)
  next
    case False
    then have "binade s + 1 \<le> binade t" using le by simp
    then have "(2::rat) powi (binade s + 1) \<le> 2 powi binade t"
      by (simp add: power_int_increasing)
    then show ?thesis
      using round64_bounds(2)[OF assms(1)] round64_bounds(1)[OF t] by linarith
  qed
qed

lemma round64_mono:
  assumes "s \<le> t"
  shows "round64 s \<le> round64 t"
proof -
  consider "0 < s" | "s = 0" | "s < 0" "0 \<le> t" | "s < 0" "t < 0" by linarith
  then show ?thesis
  proof cases
    case 1
    then show ?thesis using assms by (rule round64_mono_pos)
  next
    case 2
    then show ?thesis using assms round64_pos[of t] by (cases "t = 0") (auto simp: round64_zero)
  next
    case 3
    have "round64 s < 0" using round64_pos[of "- s"] 3(1) by (simp add: round64_neg)
    moreover have "0 \<le> round64 t" using round64_pos[of t] 3(2) by (cases "t = 0") (auto simp: round64_zero)
    ultimately show ?thesis by simp
  next
    case 4
    then have "round64 (- t) \<le> round64 (- s)" using assms by (intro round64_mono_pos) auto
    then show ?thesis by (simp add: round64_neg)
  qed
qed

lemma round64_frac:
  assumes "0 < a"
  shows "round64 (of_int a / 2 ^ k) = of_int (round53 a) / 2 ^ k"
proof -
  have "(of_int b :: rat) / 2 ^ k = of_int b * 2 powi (- int k)" for b
    by (simp add: power_int_minus field_simps)
  then show ?thesis using round64_dyadic[OF assms, of "- int k"] by simp
qed

lemma bitlen_one: "bitlen 1 = 1"
  by (subst compute_bitlen) simp

lemma bitlen_Bit0: "bitlen (numeral (Num.Bit0 k)) = bitlen (numeral k) + 1"
  by (subst compute_bitlen) simp

lemma bitlen_Bit1: "bitlen (numeral (Num.Bit1 k)) = bitlen (numeral k) + 1"
  by (subst compute_bitlen) simp

lemma pow2_num_bitlen:
  "pow2_num q \<Longrightarrow> numeral q = (2::int) ^ nat (bitlen (numeral q) - 1)"
proof (induction q)
  case One
  then show ?case by (simp add: bitlen_one)
next
  case (Bit0 q)
  then have q: "numeral q = (2::int) ^ nat (bitlen (numeral q) - 1)" by simp
  have "1 \<le> bitlen (numeral q)" by (simp add: bitlen_alt_def)
  then have n: "nat (bitlen (numeral q) + 1 - 1) = Suc (nat (bitlen (numeral q) - 1))" by simp
  have "(2::int) ^ nat (bitlen (numeral (Num.Bit0 q)) - 1) = 2 ^ nat (bitlen (numeral q) + 1 - 1)"
    by (simp only: bitlen_Bit0)
  also have "\<dots> = 2 * 2 ^ nat (bitlen (numeral q) - 1)"
    by (simp only: n power_Suc)
  also have "\<dots> = 2 * numeral q"
    by (rule arg_cong[where f = "\<lambda>v. 2 * v"]) (rule q[symmetric])
  also have "\<dots> = numeral (Num.Bit0 q)"
    by (simp only: numeral_Bit0[of q] mult_2)
  finally show ?case by (rule sym)
next
  case (Bit1 q)
  then show ?case by simp
qed

lemma round64_numeral: "round64 (numeral p) = of_int (round53 (numeral p))"
  using round64_frac[of "numeral p" 0] by simp

lemma round64_one: "round64 1 = 1"
  using round64_frac[of 1 0] by (simp add: round53_def shift_round_def bitlen_one)

lemma pow2_denominator:
  assumes "pow2_num q"
  shows "(numeral q :: rat) = 2 ^ nat (bitlen (numeral q) - 1)"
proof -
  have "(numeral q :: rat) = of_int (numeral q)" by simp
  also have "\<dots> = of_int (2 ^ nat (bitlen (numeral q) - 1))"
    using pow2_num_bitlen[OF assms] by simp
  finally show ?thesis by simp
qed

lemma round64_numeral_frac:
  assumes "pow2_num q"
  shows "round64 (numeral p / numeral q) = of_int (round53 (numeral p)) / numeral q"
  using round64_frac[of "numeral p" "nat (bitlen (numeral q) - 1)"] pow2_denominator[OF assms]
  by simp

lemma round64_one_frac:
  assumes "pow2_num q"
  shows "round64 (1 / numeral q) = 1 / numeral q"
  using round64_frac[of 1 "nat (bitlen (numeral q) - 1)"] pow2_denominator[OF assms]
  by (simp add: round53_def shift_round_def bitlen_one)

lemmas round64_eval = round64_zero round64_one round64_neg round64_numeral round64_numeral_frac
  round64_one_frac round53_def shift_round_def rne_int_def tie_even_def bitlen_Bit0 bitlen_Bit1 bitlen_one

lemma val_range: "round64 (val a) = val a"
proof -
  obtain t where "val a = round64 t" using Rep_number[of a] by blast
  then show ?thesis by (simp add: round64_idem)
qed

lemma number_eq_iff: "a = b \<longleftrightarrow> val a = val b"
  by (simp add: Rep_number_inject)

lemmas val_simps = lit.rep_eq plus_number.rep_eq minus_number.rep_eq times_number.rep_eq
  divide_number.rep_eq uminus_number.rep_eq less_eq_number.rep_eq less_number.rep_eq

lemma times_minus_one: "a * (- lit 1) = - a"
  by (simp add: number_eq_iff val_simps round64_one round64_neg val_range)

lemma add_nonneg_ge:
  assumes "lit 0 \<le> b"
  shows "a \<le> a + b"
proof -
  have "0 \<le> val b" using assms by (simp add: val_simps round64_zero)
  then have "round64 (val a) \<le> round64 (val a + val b)" by (intro round64_mono) simp
  then show ?thesis by (simp add: val_simps val_range)
qed

section \<open>Expressions over literals\<close>

text \<open>
  The literals of the source that are no binary fractions, rounded once and for all.
\<close>

lemma lit_001: "round64 (1 / 100) = 5764607523034235 / 576460752303423488"
  by code_simp

lemma lit_002: "round64 (1 / 50) = 5764607523034235 / 288230376151711744"
  by code_simp

lemma lit_02: "round64 (1 / 5) = 3602879701896397 / 18014398509481984"
  by code_simp

lemma lit_09: "round64 (9 / 10) = 8106479329266893 / 9007199254740992"
  by code_simp

lemma lit_099: "round64 (99 / 100) = 4458563631096791 / 4503599627370496"
  by code_simp

lemma lit_10001: "round64 (10001 / 10000) = 4504049987333233 / 4503599627370496"
  by code_simp

lemmas literals = lit_001 lit_002 lit_02 lit_09 lit_099 lit_10001

text \<open>
  An expression built from literals is a literal again: these equations reduce it to one
  whose rational is a numeral.
\<close>

lemma lit_add: "lit a + lit b = lit (round64 a + round64 b)"
  by (simp add: number_eq_iff val_simps)

lemma lit_sub: "lit a - lit b = lit (round64 a - round64 b)"
  by (simp add: number_eq_iff val_simps)

lemma lit_mul: "lit a * lit b = lit (round64 a * round64 b)"
  by (simp add: number_eq_iff val_simps)

lemma lit_div: "lit a / lit b = lit (round64 a / round64 b)"
  by (simp add: number_eq_iff val_simps)

lemma lit_neg: "- lit a = lit (- a)"
  by (simp add: number_eq_iff val_simps round64_neg)

lemma lit_le: "lit a \<le> lit b \<longleftrightarrow> round64 a \<le> round64 b"
  by (simp add: val_simps)

lemma lit_less: "lit a < lit b \<longleftrightarrow> round64 a < round64 b"
  by (simp add: val_simps)

lemma lit_eq: "lit a = lit b \<longleftrightarrow> round64 a = round64 b"
  by (simp add: number_eq_iff val_simps)

lemmas lit_eval = lit_add lit_sub lit_mul lit_div lit_neg lit_le lit_less lit_eq literals round64_eval
  max_def min_def

lemma neg_neg: "- (- a) = (a :: number)"
  by (simp add: number_eq_iff val_simps)

lemma neg_less_zero:
  assumes "lit 0 < a"
  shows "- a < lit 0"
  using assms by (simp add: val_simps round64_zero)

lemma val_one: "val (lit 1) = 1" "val (- lit 1) = - 1"
  by (simp_all add: val_simps round64_one)

lemma clamp_between:
  assumes "lo \<le> (hi :: number)"
  shows "lo \<le> max lo (min hi v)" and "max lo (min hi v) \<le> hi"
  using assms by (auto simp add: max_def min_def)

lemma clamp_bounds_ordered:
  assumes "h \<le> lit 2"
  shows "- lit 1 + h / lit 2 \<le> lit 1 - h / lit 2"
proof -
  define q where "q = val (h / lit 2)"
  have "val h \<le> 2" using assms by (simp add: val_simps round64_eval)
  then have "val h / 2 \<le> 1" by simp
  then have "round64 (val h / 2) \<le> round64 1" by (rule round64_mono)
  then have q: "q \<le> 1" by (simp add: q_def val_simps round64_eval)
  have "round64 (- 1 + q) \<le> round64 0" using q by (intro round64_mono) simp
  moreover have "round64 0 \<le> round64 (1 - q)" using q by (intro round64_mono) simp
  ultimately have "round64 (- 1 + q) \<le> round64 (1 - q)" by simp
  then show ?thesis
    unfolding q_def by (simp add: less_eq_number.rep_eq plus_number.rep_eq minus_number.rep_eq val_one)
qed

section \<open>Game objects\<close>

text \<open>
  The objects \<^verbatim>\<open>paddles.left\<close>, \<^verbatim>\<open>paddles.right\<close> and \<^verbatim>\<open>ball\<close> of the
  source are records with the source's fields. A paddle and the ball both have fields
  \<^verbatim>\<open>x\<close>, \<^verbatim>\<open>y\<close> and \<^verbatim>\<open>dy\<close>; they are told apart by the record's name
  (\<open>paddle.y\<close>, \<open>ball.y\<close>).
\<close>

record paddle =
  x :: number
  y :: number
  width :: number
  height :: number
  dy :: number

record ball =
  x :: number
  y :: number
  dx :: number
  dy :: number
  size :: number

text \<open>
  \<^verbatim>\<open>keys\<close> starts as the empty object and is only ever assigned booleans under the
  name of a keyboard key, so it is a partial map from key names to booleans. The module's
  mutable state is the two paddles, the ball and \<^verbatim>\<open>keys\<close>.
\<close>

record game =
  left :: paddle
  right :: paddle
  ball :: ball
  keys :: "string \<rightharpoonup> bool"

definition paddles_left :: paddle where
  "paddles_left =
     \<lparr>paddle.x = - lit 0.9, y = lit 0.0, width = lit 0.02, height = lit 0.2, dy = lit 0\<rparr>"

definition paddles_right :: paddle where
  "paddles_right =
     \<lparr>paddle.x = lit 0.9, y = lit 0.0, width = lit 0.02, height = lit 0.2, dy = lit 0\<rparr>"

definition ball_init :: ball where
  "ball_init = \<lparr>ball.x = lit 0.0, y = lit 0.0, dx = lit 0.01, dy = lit 0.01, size = lit 0.02\<rparr>"

definition init :: game where
  "init = \<lparr>left = paddles_left, right = paddles_right, ball = ball_init, keys = Map.empty\<rparr>"

section \<open>Input\<close>

text \<open>
  The two listeners: \<^verbatim>\<open>keys[e.key] = true\<close> on keydown, \<^verbatim>\<open>keys[e.key] = false\<close>
  on keyup. \<open>setPressed\<close> is the specification's name for the pair.
\<close>

definition keydown :: "string \<Rightarrow> game \<Rightarrow> game" where
  "keydown k g = g\<lparr>keys := (keys g)(k \<mapsto> True)\<rparr>"

definition keyup :: "string \<Rightarrow> game \<Rightarrow> game" where
  "keyup k g = g\<lparr>keys := (keys g)(k \<mapsto> False)\<rparr>"

definition setPressed :: "string \<Rightarrow> bool \<Rightarrow> game \<Rightarrow> game" where
  "setPressed k isDown g = (if isDown then keydown k g else keyup k g)"

text \<open>
  \<^verbatim>\<open>if (keys['w'])\<close> reads a property and tests its truthiness: a name that was never
  assigned reads as \<^verbatim>\<open>undefined\<close>, which is falsy. (The names of keyboard keys, the
  four that \<^verbatim>\<open>update()\<close> reads among them, are not names of properties that every
  object inherits, so a read finds what was assigned and nothing else.) \<open>isPressed\<close>
  is the specification's name for that read.
\<close>

definition isPressed :: "game \<Rightarrow> string \<Rightarrow> bool" where
  "isPressed g k = (case keys g k of None \<Rightarrow> False | Some b \<Rightarrow> b)"

section \<open>The update function\<close>

text \<open>
  \<^verbatim>\<open>update()\<close> is a sequence of eight groups of statements; each is a function on the
  state, in the order of the source, and \<open>update\<close> is their composition. The condition
  of each \<^verbatim>\<open>if\<close> is a predicate of its own, so that a theorem can say whether the
  branch is taken.
\<close>

text \<open>Lines 86-93: the velocity of each paddle from its pair of keys.\<close>

definition control :: "game \<Rightarrow> string \<Rightarrow> string \<Rightarrow> number" where
  "control g up down =
     (if isPressed g up then lit 0.02
      else if isPressed g down then - lit 0.02
      else lit 0)"

definition paddle_controls :: "game \<Rightarrow> game" where
  "paddle_controls g =
     g\<lparr>left := (left g)\<lparr>paddle.dy := control g ''w'' ''s''\<rparr>,
       right := (right g)\<lparr>paddle.dy := control g ''ArrowUp'' ''ArrowDown''\<rparr>\<rparr>"

text \<open>Lines 96-97: \<^verbatim>\<open>y += dy\<close> for both paddles.\<close>

definition move_paddle :: "paddle \<Rightarrow> paddle" where
  "move_paddle p = p\<lparr>paddle.y := paddle.y p + paddle.dy p\<rparr>"

definition move_paddles :: "game \<Rightarrow> game" where
  "move_paddles g = g\<lparr>left := move_paddle (left g), right := move_paddle (right g)\<rparr>"

text \<open>
  Lines 100-101:
  \<^verbatim>\<open>y = Math.max(-1 + height / 2, Math.min(1 - height / 2, y))\<close>.
\<close>

definition clamp_paddle :: "paddle \<Rightarrow> paddle" where
  "clamp_paddle p =
     p\<lparr>paddle.y :=
         max (- lit 1 + height p / lit 2) (min (lit 1 - height p / lit 2) (paddle.y p))\<rparr>"

definition clamp_paddles :: "game \<Rightarrow> game" where
  "clamp_paddles g = g\<lparr>left := clamp_paddle (left g), right := clamp_paddle (right g)\<rparr>"

text \<open>Lines 104-105: \<^verbatim>\<open>ball.x += ball.dx; ball.y += ball.dy\<close>.\<close>

definition move_ball :: "game \<Rightarrow> game" where
  "move_ball g =
     g\<lparr>ball := (ball g)\<lparr>ball.x := ball.x (ball g) + dx (ball g),
                         ball.y := ball.y (ball g) + ball.dy (ball g)\<rparr>\<rparr>"

text \<open>Lines 108-110: the top and bottom walls.\<close>

definition hits_wall :: "game \<Rightarrow> bool" where
  "hits_wall g \<longleftrightarrow>
     ball.y (ball g) > lit 1 - size (ball g) \<or> ball.y (ball g) < - lit 1 + size (ball g)"

definition wall_collision :: "game \<Rightarrow> game" where
  "wall_collision g =
     (if hits_wall g then g\<lparr>ball := (ball g)\<lparr>ball.dy := ball.dy (ball g) * (- lit 1)\<rparr>\<rparr> else g)"

text \<open>Lines 113-118 and 120-125: the two paddles, each with the source's own test.\<close>

definition hits_left :: "game \<Rightarrow> bool" where
  "hits_left g \<longleftrightarrow>
     ball.x (ball g) < paddle.x (left g) + width (left g) \<and>
     ball.x (ball g) > paddle.x (left g) - width (left g) \<and>
     ball.y (ball g) < paddle.y (left g) + height (left g) / lit 2 \<and>
     ball.y (ball g) > paddle.y (left g) - height (left g) / lit 2"

definition left_collision :: "game \<Rightarrow> game" where
  "left_collision g =
     (if hits_left g then g\<lparr>ball := (ball g)\<lparr>dx := dx (ball g) * (- lit 1)\<rparr>\<rparr> else g)"

definition hits_right :: "game \<Rightarrow> bool" where
  "hits_right g \<longleftrightarrow>
     ball.x (ball g) > paddle.x (right g) - width (right g) \<and>
     ball.x (ball g) < paddle.x (right g) + width (right g) \<and>
     ball.y (ball g) < paddle.y (right g) + height (right g) / lit 2 \<and>
     ball.y (ball g) > paddle.y (right g) - height (right g) / lit 2"

definition right_collision :: "game \<Rightarrow> game" where
  "right_collision g =
     (if hits_right g then g\<lparr>ball := (ball g)\<lparr>dx := dx (ball g) * (- lit 1)\<rparr>\<rparr> else g)"

text \<open>Lines 128-132: the ball went past a paddle.\<close>

definition past_paddles :: "game \<Rightarrow> bool" where
  "past_paddles g \<longleftrightarrow> ball.x (ball g) > lit 1 \<or> ball.x (ball g) < - lit 1"

definition reset_ball :: "game \<Rightarrow> game" where
  "reset_ball g =
     (if past_paddles g
      then g\<lparr>ball := (ball g)\<lparr>ball.x := lit 0, ball.y := lit 0, dx := - dx (ball g)\<rparr>\<rparr>
      else g)"

text \<open>
  The state when the ball has been moved (line 105), and the state when both paddles
  have been tested (line 125).
\<close>

definition integrated :: "game \<Rightarrow> game" where
  "integrated g = move_ball (clamp_paddles (move_paddles (paddle_controls g)))"

definition collided :: "game \<Rightarrow> game" where
  "collided g = right_collision (left_collision (wall_collision (integrated g)))"

definition update :: "game \<Rightarrow> game" where
  "update g = reset_ball (collided g)"

text \<open>
  \<^verbatim>\<open>gameLoop\<close> calls \<^verbatim>\<open>update()\<close> once per frame; \<^verbatim>\<open>render\<close> reads the
  state and changes nothing. \<open>run n\<close> is the state after \<open>n\<close> frames.
\<close>

fun run :: "nat \<Rightarrow> game \<Rightarrow> game" where
  "run 0 g = g"
| "run (Suc n) g = run n (update g)"

section \<open>Rendering\<close>

text \<open>
  \<^verbatim>\<open>drawRect(gl, ..., x, y, width, height, color)\<close> builds two triangles from the
  corners \<^verbatim>\<open>x - width\<close>, \<^verbatim>\<open>x + width\<close>, \<^verbatim>\<open>y - height\<close> and
  \<^verbatim>\<open>y + height\<close>; the list is the source's array, before its conversion to
  32-bit floats (the parameters are renamed, \<open>x\<close> to \<open>rx\<close> and so on, since the
  field names are taken). \<^verbatim>\<open>render\<close> passes a paddle's \<^verbatim>\<open>height\<close>
  field as is.
\<close>

definition drawRect :: "number \<Rightarrow> number \<Rightarrow> number \<Rightarrow> number \<Rightarrow> (number \<times> number) list" where
  "drawRect rx ry rwidth rheight =
     [(rx - rwidth, ry - rheight), (rx + rwidth, ry - rheight), (rx - rwidth, ry + rheight),
      (rx - rwidth, ry + rheight), (rx + rwidth, ry - rheight), (rx + rwidth, ry + rheight)]"

definition render_paddle :: "paddle \<Rightarrow> (number \<times> number) list" where
  "render_paddle p = drawRect (paddle.x p) (paddle.y p) (width p) (height p)"

section \<open>States and runs that the theorems speak of\<close>

text \<open>
  The paddles never change their \<^verbatim>\<open>x\<close> and \<^verbatim>\<open>width\<close>: a state has the
  \<open>court\<close> of the source when these four fields hold the source's constants.
\<close>

definition court :: "game \<Rightarrow> bool" where
  "court g \<longleftrightarrow>
     paddle.x (left g) = - lit 0.9 \<and> width (left g) = lit 0.02 \<and>
     paddle.x (right g) = lit 0.9 \<and> width (right g) = lit 0.02"

text \<open>
  No branch of \<^verbatim>\<open>update()\<close> is taken in the step from \<open>g\<close>: each condition is
  false in the state in which the source evaluates it. \<open>quiet_run n g\<close> says so of
  each of the \<open>n\<close> steps from \<open>g\<close>.
\<close>

definition branch_free :: "game \<Rightarrow> bool" where
  "branch_free g \<longleftrightarrow>
     \<not> hits_wall (integrated g) \<and>
     \<not> hits_left (wall_collision (integrated g)) \<and>
     \<not> hits_right (left_collision (wall_collision (integrated g))) \<and>
     \<not> past_paddles (collided g)"

fun quiet_run :: "nat \<Rightarrow> game \<Rightarrow> bool" where
  "quiet_run 0 g = True"
| "quiet_run (Suc n) g = (branch_free g \<and> quiet_run n (update g))"

text \<open>
  Concrete states: the initial state with the ball moved. In \<open>near_top\<close> the ball is
  above the line \<open>1 - size\<close>; in \<open>at_left_paddle\<close> it is about to enter the left
  paddle's box, in \<open>left_edge\<close> about to land on the right edge of that box exactly; in
  \<open>beyond_right\<close> it is past the right paddle, in \<open>beyond_right_falling\<close> also moving
  down.
\<close>

definition near_top :: game where
  "near_top = init\<lparr>ball := ball_init\<lparr>ball.y := lit 0.99\<rparr>\<rparr>"

definition at_left_paddle :: game where
  "at_left_paddle = init\<lparr>ball := ball_init\<lparr>ball.x := - lit 0.9\<rparr>\<rparr>"

definition left_edge :: game where
  "left_edge = init\<lparr>ball := ball_init\<lparr>ball.x := - lit 0.9 + lit 0.02 - lit 0.01\<rparr>\<rparr>"

definition beyond_right :: game where
  "beyond_right = init\<lparr>ball := ball_init\<lparr>ball.x := lit 1.0001\<rparr>\<rparr>"

definition beyond_right_falling :: game where
  "beyond_right_falling = init\<lparr>ball := ball_init\<lparr>ball.x := lit 1.0001, ball.dy := - lit 0.01\<rparr>\<rparr>"

text \<open>
  One paddle under a constant velocity \<open>v\<close>, for \<open>n\<close> frames; and the states \<open>diag t\<close>
  of the initial serve, in which the ball is at \<open>(t, t)\<close> with the initial velocity:
  \<open>diag_adv n t\<close> is where \<open>n\<close> additions of \<^verbatim>\<open>0.01\<close> take \<open>t\<close>, and
  \<open>diag_ok n t\<close> says that each of them stays between 0 and 0.75.
\<close>

fun paddle_run :: "nat \<Rightarrow> number \<Rightarrow> paddle \<Rightarrow> paddle" where
  "paddle_run 0 v p = p"
| "paddle_run (Suc n) v p = paddle_run n v (clamp_paddle (move_paddle (p\<lparr>paddle.dy := v\<rparr>)))"

definition diag :: "number \<Rightarrow> game" where
  "diag t = init\<lparr>ball := ball_init\<lparr>ball.x := t, ball.y := t\<rparr>\<rparr>"

fun diag_adv :: "nat \<Rightarrow> number \<Rightarrow> number" where
  "diag_adv 0 t = t"
| "diag_adv (Suc n) t = diag_adv n (t + lit 0.01)"

fun diag_ok :: "nat \<Rightarrow> number \<Rightarrow> bool" where
  "diag_ok 0 t = True"
| "diag_ok (Suc n) t =
     (lit 0 \<le> t + lit 0.01 \<and> t + lit 0.01 \<le> lit 0.75 \<and> diag_ok n (t + lit 0.01))"

section \<open>The stages of update\<close>

lemmas init_defs = init_def paddles_left_def paddles_right_def ball_init_def

lemma paddle_controls_simps:
  "left (paddle_controls g) = (left g)\<lparr>paddle.dy := control g ''w'' ''s''\<rparr>"
  "right (paddle_controls g) = (right g)\<lparr>paddle.dy := control g ''ArrowUp'' ''ArrowDown''\<rparr>"
  "ball (paddle_controls g) = ball g"
  "keys (paddle_controls g) = keys g"
  by (simp_all add: paddle_controls_def)

lemma move_paddles_simps:
  "left (move_paddles g) = move_paddle (left g)"
  "right (move_paddles g) = move_paddle (right g)"
  "ball (move_paddles g) = ball g"
  "keys (move_paddles g) = keys g"
  by (simp_all add: move_paddles_def)

lemma clamp_paddles_simps:
  "left (clamp_paddles g) = clamp_paddle (left g)"
  "right (clamp_paddles g) = clamp_paddle (right g)"
  "ball (clamp_paddles g) = ball g"
  "keys (clamp_paddles g) = keys g"
  by (simp_all add: clamp_paddles_def)

lemma move_ball_simps:
  "left (move_ball g) = left g"
  "right (move_ball g) = right g"
  "ball (move_ball g) =
     (ball g)\<lparr>ball.x := ball.x (ball g) + dx (ball g), ball.y := ball.y (ball g) + ball.dy (ball g)\<rparr>"
  "keys (move_ball g) = keys g"
  by (simp_all add: move_ball_def)

lemma wall_collision_simps:
  "left (wall_collision g) = left g"
  "right (wall_collision g) = right g"
  "ball (wall_collision g) =
     (if hits_wall g then (ball g)\<lparr>ball.dy := ball.dy (ball g) * (- lit 1)\<rparr> else ball g)"
  "keys (wall_collision g) = keys g"
  by (simp_all add: wall_collision_def)

lemma left_collision_simps:
  "left (left_collision g) = left g"
  "right (left_collision g) = right g"
  "ball (left_collision g) =
     (if hits_left g then (ball g)\<lparr>dx := dx (ball g) * (- lit 1)\<rparr> else ball g)"
  "keys (left_collision g) = keys g"
  by (simp_all add: left_collision_def)

lemma right_collision_simps:
  "left (right_collision g) = left g"
  "right (right_collision g) = right g"
  "ball (right_collision g) =
     (if hits_right g then (ball g)\<lparr>dx := dx (ball g) * (- lit 1)\<rparr> else ball g)"
  "keys (right_collision g) = keys g"
  by (simp_all add: right_collision_def)

lemma reset_ball_simps:
  "left (reset_ball g) = left g"
  "right (reset_ball g) = right g"
  "ball (reset_ball g) =
     (if past_paddles g
      then (ball g)\<lparr>ball.x := lit 0, ball.y := lit 0, dx := - dx (ball g)\<rparr> else ball g)"
  "keys (reset_ball g) = keys g"
  by (simp_all add: reset_ball_def)

lemmas stage_simps = paddle_controls_simps move_paddles_simps clamp_paddles_simps move_ball_simps
  wall_collision_simps left_collision_simps right_collision_simps reset_ball_simps

lemma keys_update: "keys (update g) = keys g"
  by (simp add: update_def collided_def integrated_def stage_simps)

lemma left_update:
  "left (update g) = clamp_paddle (move_paddle ((left g)\<lparr>paddle.dy := control g ''w'' ''s''\<rparr>))"
  by (simp add: update_def collided_def integrated_def stage_simps)

lemma right_update:
  "right (update g) =
     clamp_paddle (move_paddle ((right g)\<lparr>paddle.dy := control g ''ArrowUp'' ''ArrowDown''\<rparr>))"
  by (simp add: update_def collided_def integrated_def stage_simps)

lemma left_integrated:
  "left (integrated g) = clamp_paddle (move_paddle ((left g)\<lparr>paddle.dy := control g ''w'' ''s''\<rparr>))"
  by (simp add: integrated_def stage_simps)

lemma right_integrated:
  "right (integrated g) =
     clamp_paddle (move_paddle ((right g)\<lparr>paddle.dy := control g ''ArrowUp'' ''ArrowDown''\<rparr>))"
  by (simp add: integrated_def stage_simps)

lemma ball_integrated:
  "ball (integrated g) =
     (ball g)\<lparr>ball.x := ball.x (ball g) + dx (ball g), ball.y := ball.y (ball g) + ball.dy (ball g)\<rparr>"
  by (simp add: integrated_def stage_simps)

lemma size_update: "size (ball (update g)) = size (ball g)"
  by (simp add: update_def collided_def stage_simps ball_integrated)

lemma control_update: "control (update g) up down = control g up down"
  by (simp add: control_def isPressed_def keys_update)

lemma hits_stable:
  "hits_left (wall_collision g) = hits_left g"
  "hits_right (wall_collision g) = hits_right g"
  "hits_right (left_collision g) = hits_right g"
  "past_paddles (wall_collision g) = past_paddles g"
  "past_paddles (left_collision g) = past_paddles g"
  "past_paddles (right_collision g) = past_paddles g"
  by (simp_all add: hits_left_def hits_right_def past_paddles_def stage_simps)

lemma past_paddles_collided: "past_paddles (collided g) = past_paddles (integrated g)"
  by (simp add: collided_def hits_stable)

lemma dy_update:
  "ball.dy (ball (update g)) =
     (if hits_wall (integrated g) then - ball.dy (ball g) else ball.dy (ball g))"
  by (simp add: update_def collided_def stage_simps ball_integrated times_minus_one)

lemma dx_collided:
  "dx (ball (collided g)) =
     (if hits_left (integrated g) = hits_right (integrated g) then dx (ball g) else - dx (ball g))"
  by (simp add: collided_def stage_simps hits_stable ball_integrated times_minus_one neg_neg)

lemma ball_update:
  "ball (update g) =
     (if past_paddles (integrated g)
      then (ball (collided g))\<lparr>ball.x := lit 0, ball.y := lit 0, dx := - dx (ball (collided g))\<rparr>
      else ball (collided g))"
  by (simp add: update_def stage_simps past_paddles_collided)

lemmas run_eval = left_integrated right_integrated ball_integrated clamp_paddle_def move_paddle_def
  control_def isPressed_def init_defs lit_eval lit_099

section \<open>The paddles stay between their bounds\<close>

lemma height_init: "height (left init) = lit 0.2" "height (right init) = lit 0.2"
  by (simp_all add: init_defs)

text \<open>
  Claim C1. After one call of \<^verbatim>\<open>update()\<close>, whatever the keys, the vertical position
  of each paddle lies between \<open>-1 + height / 2\<close> and \<open>1 - height / 2\<close>, computed from
  that paddle's own \<^verbatim>\<open>height\<close>. The new position is the maximum of the lower bound
  and the minimum of the upper bound and \<open>y + dy\<close>, and the velocity is the one derived
  from the keys: the clamp does not reverse it. The paddle's \<^verbatim>\<open>height\<close> is taken to
  be at most 2 (the source's is 0.2, and no statement changes it): beyond that the lower
  bound is above the upper one.
\<close>

theorem paddle_clamped:
  assumes "height (left g) \<le> lit 2" and "height (right g) \<le> lit 2"
  shows "- lit 1 + height (left (update g)) / lit 2 \<le> paddle.y (left (update g)) \<and>
     paddle.y (left (update g)) \<le> lit 1 - height (left (update g)) / lit 2 \<and>
     - lit 1 + height (right (update g)) / lit 2 \<le> paddle.y (right (update g)) \<and>
     paddle.y (right (update g)) \<le> lit 1 - height (right (update g)) / lit 2 \<and>
     paddle.y (left (update g)) =
       max (- lit 1 + height (left g) / lit 2)
         (min (lit 1 - height (left g) / lit 2) (paddle.y (left g) + control g ''w'' ''s'')) \<and>
     paddle.y (right (update g)) =
       max (- lit 1 + height (right g) / lit 2)
         (min (lit 1 - height (right g) / lit 2)
           (paddle.y (right g) + control g ''ArrowUp'' ''ArrowDown'')) \<and>
     paddle.dy (left (update g)) = control g ''w'' ''s'' \<and>
     paddle.dy (right (update g)) = control g ''ArrowUp'' ''ArrowDown''"
  using clamp_between[OF clamp_bounds_ordered[OF assms(1)]]
    clamp_between[OF clamp_bounds_ordered[OF assms(2)]]
  by (simp add: left_update right_update clamp_paddle_def move_paddle_def)

theorem paddle_clamped_witness:
  "height (left (keydown ''w'' init)) \<le> lit 2 \<and>
   height (right (keydown ''w'' init)) \<le> lit 2 \<and>
   - lit 1 + height (left (update (keydown ''w'' init))) / lit 2
     \<le> paddle.y (left (update (keydown ''w'' init))) \<and>
   paddle.y (left (update (keydown ''w'' init)))
     \<le> lit 1 - height (left (update (keydown ''w'' init))) / lit 2"
proof -
  have l: "height (left (keydown ''w'' init)) \<le> lit 2"
    by (simp add: keydown_def height_init lit_eval)
  have r: "height (right (keydown ''w'' init)) \<le> lit 2"
    by (simp add: keydown_def height_init lit_eval)
  from paddle_clamped[OF l r] l r show ?thesis by blast
qed

section \<open>Walls\<close>

lemma hits_wall_above:
  assumes "lit 1 - size (ball g) < ball.y (ball g)" and "lit 0 < ball.dy (ball g)"
  shows "hits_wall (integrated g)"
proof -
  have "ball.y (ball g) \<le> ball.y (ball g) + ball.dy (ball g)"
    using assms(2) by (intro add_nonneg_ge) simp
  then have "lit 1 - size (ball g) < ball.y (ball g) + ball.dy (ball g)"
    using assms(1) by simp
  then show ?thesis by (simp add: hits_wall_def ball_integrated)
qed

text \<open>
  Claim C2. If, once the ball has been moved, its \<^verbatim>\<open>y\<close> is above \<open>1 - size\<close> or
  below \<open>-1 + size\<close>, the same step negates \<^verbatim>\<open>dy\<close>. In particular a ball that
  starts the step above \<open>1 - size\<close> and moves up ends it with \<^verbatim>\<open>dy\<close> negated once:
  the new \<^verbatim>\<open>dy\<close> is the negative of the old one, and is below zero.
\<close>

theorem wall_reflection:
  "(hits_wall (integrated g) \<longrightarrow> ball.dy (ball (update g)) = - ball.dy (ball g)) \<and>
   (lit 1 - size (ball g) < ball.y (ball g) \<and> lit 0 < ball.dy (ball g) \<longrightarrow>
      ball.dy (ball (update g)) = - ball.dy (ball g) \<and> ball.dy (ball (update g)) < lit 0)"
  using hits_wall_above[of g] neg_less_zero[of "ball.dy (ball g)"] by (simp add: dy_update)

theorem wall_reflection_witness:
  "hits_wall (integrated near_top) \<and>
   lit 1 - size (ball near_top) < ball.y (ball near_top) \<and>
   lit 0 < ball.dy (ball near_top) \<and>
   ball.dy (ball near_top) = lit 0.01 \<and>
   ball.dy (ball (update near_top)) = - ball.dy (ball near_top) \<and>
   ball.dy (ball (update near_top)) < lit 0"
proof -
  have h: "hits_wall (integrated near_top)"
    by (simp add: hits_wall_def near_top_def run_eval)
  have a: "lit 1 - size (ball near_top) < ball.y (ball near_top)"
    by (simp add: near_top_def run_eval)
  have p: "lit 0 < ball.dy (ball near_top)"
    by (simp add: near_top_def run_eval)
  have d: "ball.dy (ball near_top) = lit 0.01"
    by (simp add: near_top_def init_defs)
  from wall_reflection[of near_top] h a p d show ?thesis by blast
qed

section \<open>Paddles and goals\<close>

lemma court_integrated: "court (integrated g) = court g"
  by (simp add: court_def integrated_def stage_simps clamp_paddle_def move_paddle_def)

lemma court_bounds:
  assumes "court g"
  shows "- 1 < val (paddle.x (left g) - width (left g))"
    and "val (paddle.x (left g) + width (left g)) < 0"
    and "0 < val (paddle.x (right g) - width (right g))"
    and "val (paddle.x (right g) + width (right g)) < 1"
  using assms by (simp_all add: court_def val_simps literals round64_eval)

lemma court_exclusive:
  assumes "court g"
  shows "hits_left g \<Longrightarrow> \<not> hits_right g \<and> \<not> past_paddles g"
    and "hits_right g \<Longrightarrow> \<not> hits_left g \<and> \<not> past_paddles g"
proof -
  note b = court_bounds[OF assms]
  show "hits_left g \<Longrightarrow> \<not> hits_right g \<and> \<not> past_paddles g"
    using b unfolding hits_left_def hits_right_def past_paddles_def
      less_number.rep_eq val_one by linarith
  show "hits_right g \<Longrightarrow> \<not> hits_left g \<and> \<not> past_paddles g"
    using b unfolding hits_left_def hits_right_def past_paddles_def
      less_number.rep_eq val_one by linarith
qed

lemma ball_collided_left:
  assumes "hits_left (integrated g)" and "\<not> hits_right (integrated g)"
  shows "ball (collided g) = (ball (wall_collision (integrated g)))\<lparr>dx := - dx (ball g)\<rparr>"
  using assms
  by (simp add: collided_def stage_simps hits_stable ball_integrated times_minus_one)

lemma ball_collided_right:
  assumes "hits_right (integrated g)" and "\<not> hits_left (integrated g)"
  shows "ball (collided g) = (ball (wall_collision (integrated g)))\<lparr>dx := - dx (ball g)\<rparr>"
  using assms
  by (simp add: collided_def stage_simps hits_stable ball_integrated times_minus_one)

lemma position_after_wall:
  "ball.x (ball (wall_collision (integrated g))) = ball.x (ball g) + dx (ball g)"
  "ball.y (ball (wall_collision (integrated g))) = ball.y (ball g) + ball.dy (ball g)"
  by (simp_all add: stage_simps ball_integrated)

text \<open>
  Claim C3, as amended. The tests of lines 113-116 and 120-123 are strict. With the
  paddles where the source puts them: if, once the ball has been moved, its \<^verbatim>\<open>x\<close> is
  strictly between \<open>paddleX - width\<close> and \<open>paddleX + width\<close> and its \<^verbatim>\<open>y\<close>
  strictly between \<open>paddleY - height / 2\<close> and \<open>paddleY + height / 2\<close>, for the left
  or for the right paddle, the same step negates \<^verbatim>\<open>dx\<close> and changes nothing else of the
  ball: its position stays where the move put it, at \<open>x + dx\<close> and \<open>y + dy\<close> (no
  positional correction), and the ball after the step is the ball after the wall test
  with \<^verbatim>\<open>dx\<close> negated.
\<close>

theorem paddle_collision:
  assumes "court g"
  shows "(hits_left (integrated g) \<longrightarrow>
       dx (ball (update g)) = - dx (ball g) \<and>
       ball.x (ball (update g)) = ball.x (ball g) + dx (ball g) \<and>
       ball.y (ball (update g)) = ball.y (ball g) + ball.dy (ball g) \<and>
       ball (update g) = (ball (wall_collision (integrated g)))\<lparr>dx := - dx (ball g)\<rparr>) \<and>
     (hits_right (integrated g) \<longrightarrow>
       dx (ball (update g)) = - dx (ball g) \<and>
       ball.x (ball (update g)) = ball.x (ball g) + dx (ball g) \<and>
       ball.y (ball (update g)) = ball.y (ball g) + ball.dy (ball g) \<and>
       ball (update g) = (ball (wall_collision (integrated g)))\<lparr>dx := - dx (ball g)\<rparr>)"
proof -
  have c: "court (integrated g)" using assms by (simp add: court_integrated)
  have l: "ball (update g) = (ball (wall_collision (integrated g)))\<lparr>dx := - dx (ball g)\<rparr>"
    if "hits_left (integrated g)"
  proof -
    from court_exclusive(1)[OF c that]
    have "\<not> hits_right (integrated g)" "\<not> past_paddles (integrated g)" by blast+
    then show ?thesis using that by (simp add: ball_update ball_collided_left)
  qed
  have r: "ball (update g) = (ball (wall_collision (integrated g)))\<lparr>dx := - dx (ball g)\<rparr>"
    if "hits_right (integrated g)"
  proof -
    from court_exclusive(2)[OF c that]
    have "\<not> hits_left (integrated g)" "\<not> past_paddles (integrated g)" by blast+
    then show ?thesis using that by (simp add: ball_update ball_collided_right)
  qed
  show ?thesis
    using l r by (auto simp add: position_after_wall)
qed

theorem paddle_collision_witness:
  "court at_left_paddle \<and> hits_left (integrated at_left_paddle) \<and>
   dx (ball at_left_paddle) = lit 0.01 \<and>
   dx (ball (update at_left_paddle)) = - dx (ball at_left_paddle) \<and>
   ball.x (ball (update at_left_paddle))
     = ball.x (ball at_left_paddle) + dx (ball at_left_paddle) \<and>
   ball.y (ball (update at_left_paddle))
     = ball.y (ball at_left_paddle) + ball.dy (ball at_left_paddle)"
proof -
  have c: "court at_left_paddle"
    by (simp add: court_def at_left_paddle_def init_defs)
  have h: "hits_left (integrated at_left_paddle)"
    by (simp add: hits_left_def at_left_paddle_def run_eval)
  have d: "dx (ball at_left_paddle) = lit 0.01"
    by (simp add: at_left_paddle_def init_defs)
  from paddle_collision[OF c] h c d show ?thesis by blast
qed

text \<open>
  Claim C3 as it was stated, with closed intervals, fails: in \<open>left_edge\<close>, a state
  with the paddles of the source, the moved ball has its \<^verbatim>\<open>x\<close> on the right edge
  of the left paddle's box, \<open>paddleX + width\<close>, and its \<^verbatim>\<open>y\<close> inside, and the
  step leaves \<^verbatim>\<open>dx\<close> as it was.
\<close>

theorem paddle_collision_counterexample:
  "court left_edge \<and>
   paddle.x (left (integrated left_edge)) - width (left (integrated left_edge))
     \<le> ball.x (ball (integrated left_edge)) \<and>
   ball.x (ball (integrated left_edge))
     \<le> paddle.x (left (integrated left_edge)) + width (left (integrated left_edge)) \<and>
   paddle.y (left (integrated left_edge)) - height (left (integrated left_edge)) / lit 2
     \<le> ball.y (ball (integrated left_edge)) \<and>
   ball.y (ball (integrated left_edge))
     \<le> paddle.y (left (integrated left_edge)) + height (left (integrated left_edge)) / lit 2 \<and>
   dx (ball (update left_edge)) \<noteq> - dx (ball left_edge)"
proof -
  have l: "\<not> hits_left (integrated left_edge)"
    by (simp add: hits_left_def left_edge_def run_eval)
  have r: "\<not> hits_right (integrated left_edge)"
    by (simp add: hits_right_def left_edge_def run_eval)
  have p: "\<not> past_paddles (integrated left_edge)"
    by (simp add: past_paddles_def left_edge_def run_eval)
  have "dx (ball (update left_edge)) = dx (ball left_edge)"
    using l r p by (simp add: ball_update dx_collided)
  moreover have "dx (ball left_edge) \<noteq> - dx (ball left_edge)"
    by (simp add: left_edge_def run_eval)
  ultimately have "dx (ball (update left_edge)) \<noteq> - dx (ball left_edge)" by simp
  then show ?thesis
    by (simp add: court_def left_edge_def run_eval)
qed

text \<open>
  Claim C4. If, once the ball has been moved, its \<^verbatim>\<open>x\<close> is above 1 or below -1, the
  step puts the ball at the origin and negates the \<^verbatim>\<open>dx\<close> it has at that moment,
  whichever side it left by. With the paddles where the source puts them no paddle test
  has changed \<^verbatim>\<open>dx\<close> in this step, so it is the \<^verbatim>\<open>dx\<close> of the start of the step
  that is negated: a ball at \<open>x = 1.0001\<close> with \<open>dx = 0.01\<close> ends the step at the
  origin with \<open>dx = -0.01\<close>.
\<close>

theorem goal_reset:
  assumes "past_paddles (integrated g)"
  shows "ball.x (ball (update g)) = lit 0 \<and> ball.y (ball (update g)) = lit 0 \<and>
     dx (ball (update g)) = - dx (ball (collided g)) \<and>
     (court g \<longrightarrow> dx (ball (update g)) = - dx (ball g))"
proof -
  have "dx (ball (collided g)) = dx (ball g)" if "court g"
  proof -
    have "court (integrated g)" using that by (simp add: court_integrated)
    from court_exclusive[OF this] assms
    have "\<not> hits_left (integrated g)" "\<not> hits_right (integrated g)" by blast+
    then show ?thesis by (simp add: dx_collided)
  qed
  then show ?thesis using assms by (simp add: ball_update)
qed

theorem goal_reset_witness:
  "past_paddles (integrated beyond_right) \<and> court beyond_right \<and>
   ball.x (ball beyond_right) = lit 1.0001 \<and> dx (ball beyond_right) = lit 0.01 \<and>
   ball.x (ball (update beyond_right)) = lit 0 \<and>
   ball.y (ball (update beyond_right)) = lit 0 \<and>
   dx (ball (update beyond_right)) = - dx (ball beyond_right)"
proof -
  have h: "past_paddles (integrated beyond_right)"
    by (simp add: past_paddles_def beyond_right_def run_eval)
  have c: "court beyond_right"
    by (simp add: court_def beyond_right_def init_defs)
  have d: "ball.x (ball beyond_right) = lit 1.0001" "dx (ball beyond_right) = lit 0.01"
    by (simp_all add: beyond_right_def init_defs)
  from goal_reset[OF h] h c d show ?thesis by blast
qed

text \<open>
  Claim C10. When the goal branch is taken, the ball after the step is the ball before
  the reset with \<^verbatim>\<open>x\<close>, \<^verbatim>\<open>y\<close> and \<^verbatim>\<open>dx\<close> replaced: \<^verbatim>\<open>dy\<close> is what it was
  before the reset (the old \<^verbatim>\<open>dy\<close>, negated if the wall test of this step fired),
  not the velocity of the initial serve.
\<close>

theorem reset_keeps_dy:
  assumes "past_paddles (integrated g)"
  shows "ball (update g) =
       (ball (collided g))\<lparr>ball.x := lit 0, ball.y := lit 0, dx := - dx (ball (collided g))\<rparr> \<and>
     ball.dy (ball (update g)) = ball.dy (ball (collided g)) \<and>
     ball.dy (ball (collided g)) =
       (if hits_wall (integrated g) then - ball.dy (ball g) else ball.dy (ball g))"
proof -
  have "past_paddles (collided g)" using assms by (simp add: past_paddles_collided)
  then have "ball (update g) =
      (ball (collided g))\<lparr>ball.x := lit 0, ball.y := lit 0, dx := - dx (ball (collided g))\<rparr>"
    by (simp add: update_def stage_simps)
  moreover have "ball.dy (ball (collided g)) =
      (if hits_wall (integrated g) then - ball.dy (ball g) else ball.dy (ball g))"
    by (simp add: collided_def stage_simps ball_integrated times_minus_one)
  ultimately show ?thesis by simp
qed

theorem reset_keeps_dy_witness:
  "past_paddles (integrated beyond_right_falling) \<and>
   ball.dy (ball (update beyond_right_falling)) = ball.dy (ball (collided beyond_right_falling)) \<and>
   ball.dy (ball (collided beyond_right_falling)) = - lit 0.01 \<and>
   - lit 0.01 \<noteq> ball.dy ball_init"
proof -
  have h: "past_paddles (integrated beyond_right_falling)"
    by (simp add: past_paddles_def beyond_right_falling_def run_eval)
  have w: "\<not> hits_wall (integrated beyond_right_falling)"
    by (simp add: hits_wall_def beyond_right_falling_def run_eval)
  have d: "ball.dy (ball beyond_right_falling) = - lit 0.01"
    by (simp add: beyond_right_falling_def)
  have n: "- lit 0.01 \<noteq> ball.dy ball_init"
    by (simp add: run_eval)
  from reset_keeps_dy[OF h] h w d n show ?thesis by simp
qed

section \<open>The paddle against the edge of the field\<close>

lemma left_run: "left (run n g) = paddle_run n (control g ''w'' ''s'') (left g)"
  by (induction n arbitrary: g) (simp_all add: left_update control_update)

lemma paddle_run_w:
  "paddle_run 45 (lit 0.02) paddles_left = paddles_left\<lparr>paddle.y := lit 1 - lit 0.2 / lit 2, paddle.dy := lit 0.02\<rparr>"
  by (simp add: eval_nat_numeral clamp_paddle_def move_paddle_def paddles_left_def lit_eval)

text \<open>
  Claim C5 says that the rectangle drawn for a paddle, which spans \<open>y - height\<close> to
  \<open>y + height\<close>, stays within the field. The code does not keep it there: the clamp
  of lines 100-101 allows for \<open>height / 2\<close> only, while \<^verbatim>\<open>drawRect\<close> extends the
  rectangle by the whole \<^verbatim>\<open>height\<close>. With \<^verbatim>\<open>w\<close> held for 45 frames from the
  initial state the left paddle sits at its upper bound \<open>1 - height / 2\<close>, and a vertex
  drawn for it lies above 1.
\<close>

theorem paddle_leaves_field:
  "paddle.y (left (run 45 (keydown ''w'' init))) = lit 1 - height (left init) / lit 2 \<and>
   list_ex (\<lambda>v. lit 1 < snd v) (render_paddle (left (run 45 (keydown ''w'' init))))"
proof -
  have c: "control (keydown ''w'' init) ''w'' ''s'' = lit 0.02"
    by (simp add: control_def isPressed_def keydown_def)
  have l: "left (keydown ''w'' init) = paddles_left"
    by (simp add: keydown_def init_def)
  have "left (run 45 (keydown ''w'' init))
      = paddles_left\<lparr>paddle.y := lit 1 - lit 0.2 / lit 2, paddle.dy := lit 0.02\<rparr>"
    by (simp only: left_run c l paddle_run_w)
  then show ?thesis
    by (simp add: render_paddle_def drawRect_def init_defs lit_eval)
qed

section \<open>Fifty frames of the initial serve\<close>

lemma diag_integrated:
  "integrated (diag t) = diag (t + lit 0.01)"
proof (rule game.equality)
  show "left (integrated (diag t)) = left (diag (t + lit 0.01))"
    by (simp add: diag_def run_eval)
  show "right (integrated (diag t)) = right (diag (t + lit 0.01))"
    by (simp add: diag_def run_eval)
  show "ball (integrated (diag t)) = ball (diag (t + lit 0.01))"
    by (simp add: diag_def ball_integrated init_def ball_init_def)
  show "keys (integrated (diag t)) = keys (diag (t + lit 0.01))"
    by (simp add: diag_def integrated_def stage_simps init_def)
qed simp

lemma diag_clear:
  assumes "lit 0 \<le> u" and "u \<le> lit 0.75"
  shows "\<not> hits_wall (diag u)" and "\<not> hits_left (diag u)" and "\<not> hits_right (diag u)"
    and "\<not> past_paddles (diag u)"
proof -
  have u: "0 \<le> val u" "val u \<le> 3 / 4"
    using assms by (simp_all add: val_simps round64_eval)
  show "\<not> hits_wall (diag u)"
    using u by (simp add: hits_wall_def diag_def init_defs val_simps literals round64_eval)
  show "\<not> hits_left (diag u)"
    using u by (simp add: hits_left_def diag_def init_defs val_simps literals round64_eval)
  show "\<not> hits_right (diag u)"
    using u by (simp add: hits_right_def diag_def init_defs val_simps literals round64_eval)
  show "\<not> past_paddles (diag u)"
    using u by (simp add: past_paddles_def diag_def init_defs val_simps literals round64_eval)
qed

lemma diag_step:
  assumes "lit 0 \<le> t + lit 0.01" and "t + lit 0.01 \<le> lit 0.75"
  shows "update (diag t) = diag (t + lit 0.01)" and "branch_free (diag t)"
proof -
  define u where "u = t + lit 0.01"
  have i: "integrated (diag t) = diag u"
    unfolding u_def by (rule diag_integrated)
  have c: "\<not> hits_wall (diag u)" "\<not> hits_left (diag u)" "\<not> hits_right (diag u)"
    "\<not> past_paddles (diag u)"
    using diag_clear[OF assms] unfolding u_def by blast+
  have w: "wall_collision (diag u) = diag u"
    using c(1) by (simp add: wall_collision_def)
  have l: "left_collision (diag u) = diag u"
    using c(2) by (simp add: left_collision_def)
  have r: "right_collision (diag u) = diag u"
    using c(3) by (simp add: right_collision_def)
  have co: "collided (diag t) = diag u"
    by (simp only: collided_def i w l r)
  have "update (diag t) = diag u"
    using c(4) by (simp add: update_def co reset_ball_def)
  then show "update (diag t) = diag (t + lit 0.01)"
    unfolding u_def .
  show "branch_free (diag t)"
    unfolding branch_free_def co i w l using c by blast
qed

lemma diag_run:
  "diag_ok n t \<Longrightarrow> run n (diag t) = diag (diag_adv n t) \<and> quiet_run n (diag t)"
proof (induction n arbitrary: t)
  case 0
  show ?case by simp
next
  case (Suc n)
  from Suc.prems have a: "lit 0 \<le> t + lit 0.01" "t + lit 0.01 \<le> lit 0.75"
    and r: "diag_ok n (t + lit 0.01)" by simp_all
  from Suc.IH[OF r] diag_step[OF a] show ?case by simp
qed

lemma init_diag: "init = diag (lit 0)"
  by (simp add: diag_def init_def ball_init_def)

lemma diag_ok_50: "diag_ok 50 (lit 0)"
  by (simp add: eval_nat_numeral lit_eval)

lemma diag_adv_50: "diag_adv 50 (lit 0) = lit (2251799813685249 / 4503599627370496)"
  by (simp add: eval_nat_numeral lit_eval)

lemma run_50:
  "run 50 init = diag (lit (2251799813685249 / 4503599627370496)) \<and> quiet_run 50 init"
  using diag_run[OF diag_ok_50] by (simp add: init_diag diag_adv_50)

text \<open>
  Claim C6, as amended. From the initial state, with no key held, 50 calls of
  \<^verbatim>\<open>update()\<close> take no wall, paddle or goal branch and leave the ball at \<open>(t, t)\<close>
  with \<open>t = 1/2 + 2\<^sup>-\<^sup>5\<^sup>2\<close>, which JavaScript prints as
  \<^verbatim>\<open>0.5000000000000002\<close>: each of the 50 additions of \<^verbatim>\<open>0.01\<close> is rounded.
\<close>

theorem fifty_ticks:
  "quiet_run 50 init \<and>
   val (ball.x (ball (run 50 init))) = 1 / 2 + 1 / 2 ^ 52 \<and>
   val (ball.y (ball (run 50 init))) = 1 / 2 + 1 / 2 ^ 52"
  using run_50 by (simp add: diag_def val_simps round64_eval)

text \<open>
  Claim C6 as it was stated fails: the position is not \<open>(0.5, 0.5)\<close> exactly.
\<close>

theorem fifty_ticks_counterexample:
  "val (ball.x (ball (run 50 init))) \<noteq> 1 / 2 \<and> ball.x (ball (run 50 init)) \<noteq> lit 0.5"
  using run_50 by (simp add: diag_def number_eq_iff val_simps round64_eval)

section \<open>Keys\<close>

text \<open>
  Claim C7. Pressing a key twice is pressing it once; more generally a second
  \<open>setPressed\<close> for a key overwrites the first. Afterwards the key reads as it was
  set, the map is the old one updated at that key, and paddles and ball are untouched.
\<close>

theorem setPressed_idempotent:
  "setPressed k True (setPressed k True g) = setPressed k True g \<and>
   setPressed k b' (setPressed k b g) = setPressed k b' g \<and>
   isPressed (setPressed k b g) k = b \<and>
   keys (setPressed k b g) = (keys g)(k \<mapsto> b) \<and>
   left (setPressed k b g) = left g \<and>
   right (setPressed k b g) = right g \<and>
   ball (setPressed k b g) = ball g"
  by (simp add: setPressed_def keydown_def keyup_def isPressed_def)

lemma control_keys:
  assumes "isPressed g' up = isPressed g up" and "isPressed g' down = isPressed g down"
  shows "control g' up down = control g up down"
  using assms by (simp add: control_def)

lemma isPressed_keyup_unset:
  assumes "keys g k = None"
  shows "isPressed (keyup k g) j = isPressed g j"
  using assms by (simp add: isPressed_def keyup_def)

lemma integrated_keyup:
  assumes "keys g k = None"
  shows "integrated (keyup k g) = keyup k (integrated g)"
proof -
  have c: "control (keyup k g) up down = control g up down" for up down
    by (rule control_keys) (simp_all add: isPressed_keyup_unset[OF assms])
  have "paddle_controls (keyup k g) = keyup k (paddle_controls g)"
    by (simp add: paddle_controls_def c) (simp add: keyup_def)
  then show ?thesis
    by (simp add: integrated_def) (simp add: keyup_def move_paddles_def clamp_paddles_def move_ball_def)
qed

lemma later_stages_keys:
  "wall_collision (g\<lparr>keys := ks\<rparr>) = (wall_collision g)\<lparr>keys := ks\<rparr>"
  "left_collision (g\<lparr>keys := ks\<rparr>) = (left_collision g)\<lparr>keys := ks\<rparr>"
  "right_collision (g\<lparr>keys := ks\<rparr>) = (right_collision g)\<lparr>keys := ks\<rparr>"
  "reset_ball (g\<lparr>keys := ks\<rparr>) = (reset_ball g)\<lparr>keys := ks\<rparr>"
  by (simp_all add: wall_collision_def hits_wall_def left_collision_def hits_left_def
      right_collision_def hits_right_def reset_ball_def past_paddles_def)

lemma update_keyup:
  assumes "keys g k = None"
  shows "update (keyup k g) = keyup k (update g)"
  by (simp add: update_def collided_def integrated_keyup[OF assms])
    (simp add: keyup_def later_stages_keys stage_simps integrated_def)

text \<open>
  Claim C8. A key that was never assigned reads as not pressed, and \<^verbatim>\<open>update()\<close>
  treats it as it treats a key released explicitly: releasing it before the step changes
  nothing of the step but the entry of the key itself.
\<close>

theorem unset_key_not_pressed:
  assumes "keys g k = None"
  shows "\<not> isPressed g k \<and>
     update (keyup k g) = keyup k (update g) \<and>
     left (update (keyup k g)) = left (update g) \<and>
     right (update (keyup k g)) = right (update g) \<and>
     ball (update (keyup k g)) = ball (update g)"
  using assms by (simp add: update_keyup) (simp add: isPressed_def keyup_def)

theorem unset_key_not_pressed_witness:
  "keys init ''w'' = None \<and> \<not> isPressed init ''w'' \<and>
   update (keyup ''w'' init) = keyup ''w'' (update init)"
proof -
  have h: "keys init ''w'' = None" by (simp add: init_def)
  from unset_key_not_pressed[OF h] h show ?thesis by blast
qed

section \<open>What update leaves alone\<close>

text \<open>
  Claim C9. A call of \<^verbatim>\<open>update()\<close> changes no paddle's \<^verbatim>\<open>x\<close>, \<^verbatim>\<open>width\<close> or
  \<^verbatim>\<open>height\<close>, nor the ball's \<^verbatim>\<open>size\<close>, nor \<^verbatim>\<open>keys\<close>.
\<close>

theorem update_frame:
  "paddle.x (left (update g)) = paddle.x (left g) \<and>
   width (left (update g)) = width (left g) \<and>
   height (left (update g)) = height (left g) \<and>
   paddle.x (right (update g)) = paddle.x (right g) \<and>
   width (right (update g)) = width (right g) \<and>
   height (right (update g)) = height (right g) \<and>
   size (ball (update g)) = size (ball g) \<and>
   keys (update g) = keys g"
  by (simp add: left_update right_update keys_update size_update clamp_paddle_def move_paddle_def)

end
